theory Spec2Isabelle
  imports Main
begin

section \<open>JavaScript values\<close>

text \<open>
  The payload of a WebSocket message is typed \<^verbatim>\<open>any\<close> and comes out of
  \<^verbatim>\<open>JSON.parse\<close>, and the store builds its state with object spreads, so the
  values are modelled as they are at run time. Numbers are the integers (the progress
  counters of the backend); a string is a list of characters, which is what a spread
  enumerates for ASCII text. \<open>JObj\<close> lists the own properties of an object, each key
  once.
\<close>

datatype jsval =
    JUndefined
  | JNull
  | JBool bool
  | JNum int
  | JStr string
  | JArr "jsval list"
  | JObj "(string \<times> jsval) list"

datatype exn = TypeError

text \<open>An object under construction: its keys and their values.\<close>

type_synonym obj = "string \<rightharpoonup> jsval"

text \<open>The test of \<^verbatim>\<open>if (v)\<close> and of \<^verbatim>\<open>v || w\<close>.\<close>

fun truthy :: "jsval \<Rightarrow> bool" where
  "truthy JUndefined = False"
| "truthy JNull = False"
| "truthy (JBool b) = b"
| "truthy (JNum n) = (n \<noteq> 0)"
| "truthy (JStr s) = (s \<noteq> [])"
| "truthy (JArr xs) = True"
| "truthy (JObj kvs) = True"

fun nullish :: "jsval \<Rightarrow> bool" where
  "nullish JUndefined = True"
| "nullish JNull = True"
| "nullish v = False"

definition or_else :: "jsval \<Rightarrow> jsval \<Rightarrow> jsval" where
  "or_else v w = (if truthy v then v else w)"

text \<open>
  The key under which an array or a string holds its \<open>n\<close>-th element: the index
  in decimal.
\<close>

definition digit_char :: "nat \<Rightarrow> char" where
  "digit_char d = ''0123456789'' ! d"

fun index_key :: "nat \<Rightarrow> string" where
  "index_key n =
     (if 10 \<le> n then index_key (n div 10) @ [digit_char (n mod 10)] else [digit_char n])"

declare index_key.simps [simp del]

text \<open>
  The own enumerable properties that \<^verbatim>\<open>{...v}\<close> copies: those of an object, the
  indices of an array or of a string, and nothing for \<^verbatim>\<open>undefined\<close>,
  \<^verbatim>\<open>null\<close>, a boolean or a number.
\<close>

fun own_props :: "jsval \<Rightarrow> (string \<times> jsval) list" where
  "own_props (JObj kvs) = kvs"
| "own_props (JArr xs) = zip (map index_key [0..<length xs]) xs"
| "own_props (JStr s) = zip (map index_key [0..<length s]) (map (\<lambda>c. JStr [c]) s)"
| "own_props v = []"

definition spread :: "jsval \<Rightarrow> obj" where
  "spread v = map_of (own_props v)"

text \<open>
  Reading a property \<^verbatim>\<open>v.k\<close> of a value that is neither \<^verbatim>\<open>undefined\<close>
  nor \<^verbatim>\<open>null\<close>, for the keys the code reads (\<^verbatim>\<open>type\<close>,
  \<^verbatim>\<open>data\<close>, \<^verbatim>\<open>state\<close>, \<^verbatim>\<open>error\<close>, \<^verbatim>\<open>database\<close>, ...):
  no array, string, number or boolean has them. Every caller tests \<open>nullish\<close>
  (or \<open>truthy\<close>) first, where the code would throw.
\<close>

fun get_prop :: "jsval \<Rightarrow> string \<Rightarrow> jsval" where
  "get_prop (JObj kvs) k = (case map_of kvs k of None \<Rightarrow> JUndefined | Some v \<Rightarrow> v)"
| "get_prop v k = JUndefined"

text \<open>Optional chaining \<^verbatim>\<open>v?.k\<close>.\<close>

definition opt_prop :: "jsval \<Rightarrow> string \<Rightarrow> jsval" where
  "opt_prop v k = (if nullish v then JUndefined else get_prop v k)"

section \<open>The processing store (useProcessingStore.ts)\<close>

text \<open>
  \<open>processingState\<close> is the object the store holds; \<open>stats\<close> is \<^verbatim>\<open>null\<close>
  or the statistics object; \<open>error\<close> is \<^verbatim>\<open>null\<close> or whatever the failing call
  reported.
\<close>

record ProcessingStoreState =
  processingState :: obj
  stats :: "obj option"
  isLoading :: bool
  error :: jsval
  isWebSocketConnected :: bool

definition defaultProcessingState :: obj where
  "defaultProcessingState = map_of
     [(''status'', JStr ''idle''),
      (''current_step'', JStr ''''),
      (''progress'', JNum 0),
      (''total_steps'', JNum 0),
      (''start_time'', JNull),
      (''end_time'', JNull),
      (''error_message'', JNull),
      (''results'', JObj []),
      (''logs'', JArr [])]"

definition initial_store :: ProcessingStoreState where
  "initial_store =
     \<lparr>processingState = defaultProcessingState, stats = None, isLoading = False,
      error = JNull, isWebSocketConnected = False\<rparr>"

text \<open>
  What a store action leaves behind besides the new state: a call of
  \<^verbatim>\<open>loadStatistics\<close> that was started, or a line on the console.
\<close>

datatype effect = LoadStatistics | ConsoleLog string | ConsoleError string

text \<open>
  What leaves an action by \<^verbatim>\<open>throw\<close>: a value that was caught and is thrown
  again, or an exception the action itself raises.
\<close>

datatype abrupt = Rethrown jsval | Raised exn

text \<open>
  A rejected request arrives in the \<^verbatim>\<open>catch\<close> block as the value \<open>err\<close>;
  \<open>detail_of\<close> reads \<^verbatim>\<open>error.response?.data?.detail\<close> from it. The first
  access is a plain one: it throws a TypeError when the value caught is
  \<^verbatim>\<open>undefined\<close> or \<^verbatim>\<open>null\<close>.
\<close>

definition detail_of :: "jsval \<Rightarrow> exn + jsval" where
  "detail_of err =
     (if nullish err then Inl TypeError
      else Inr (opt_prop (opt_prop (get_prop err ''response'') ''data'') ''detail''))"

subsection \<open>loadProcessingStatus\<close>

text \<open>
  The action is asynchronous: it sets the loading flag, awaits the request, and then
  either stores the response or the failure. Other events may be handled between
  the two halves, so the second half takes the store as it is when the response
  arrives. The \<^verbatim>\<open>catch\<close> block evaluates the message before it calls
  \<^verbatim>\<open>set\<close>: when that throws, the store is not written and the exception
  leaves the action.
\<close>

definition loadProcessingStatus_begin :: "ProcessingStoreState \<Rightarrow> ProcessingStoreState" where
  "loadProcessingStatus_begin s = s\<lparr>isLoading := True, error := JNull\<rparr>"

definition loadProcessingStatus_fulfilled ::
  "ProcessingStoreState \<Rightarrow> jsval \<Rightarrow> ProcessingStoreState" where
  "loadProcessingStatus_fulfilled s status =
     s\<lparr>processingState := defaultProcessingState ++ spread status, isLoading := False\<rparr>"

definition loadProcessingStatus_rejected ::
  "ProcessingStoreState \<Rightarrow> jsval \<Rightarrow> ProcessingStoreState \<times> abrupt option" where
  "loadProcessingStatus_rejected s err =
     (case detail_of err of
        Inl e \<Rightarrow> (s, Some (Raised e))
      | Inr detail \<Rightarrow>
          (s\<lparr>error := or_else detail (JStr ''Failed to load processing status''),
             isLoading := False\<rparr>, None))"

subsection \<open>loadStatistics\<close>

definition loadStatistics_fulfilled ::
  "ProcessingStoreState \<Rightarrow> jsval \<Rightarrow> ProcessingStoreState \<times> effect list" where
  "loadStatistics_fulfilled s st =
     (if nullish st then (s, [ConsoleError ''Failed to load statistics:''])
      else
        (s\<lparr>stats := Some (map_of
           [(''total_summaries'',
               or_else (opt_prop (get_prop st ''database'') ''summaries_count'') (JNum 0)),
            (''summaries_last_week'',
               or_else (opt_prop (get_prop st ''database'') ''summaries_last_week'') (JNum 0)),
            (''total_links'',
               or_else (opt_prop (get_prop st ''database'') ''links_count'') (JNum 0)),
            (''total_insights'',
               or_else (opt_prop (get_prop st ''database'') ''insights_count'') (JNum 0)),
            (''last_run'',
               or_else (opt_prop (get_prop st ''processing'') ''last_run'') JNull),
            (''api_calls_today'', JNum 0)])\<rparr>, []))"

definition loadStatistics_rejected ::
  "ProcessingStoreState \<Rightarrow> ProcessingStoreState \<times> effect list" where
  "loadStatistics_rejected s = (s, [ConsoleError ''Failed to load statistics:''])"

subsection \<open>startProcessing and stopProcessing\<close>

text \<open>
  \<open>now\<close> is \<^verbatim>\<open>new Date().toISOString()\<close> at the moment the start call
  returns. When the call fails the action stores the failure and throws it again:
  the second component of the result is what the action throws, if anything. As in
  \<^verbatim>\<open>loadProcessingStatus\<close>, a \<^verbatim>\<open>catch\<close> block that throws while it
  reads the message writes nothing and throws that exception instead.
\<close>

definition startProcessing_begin :: "ProcessingStoreState \<Rightarrow> ProcessingStoreState" where
  "startProcessing_begin s = s\<lparr>isLoading := True, error := JNull\<rparr>"

definition startProcessing_fulfilled ::
  "ProcessingStoreState \<Rightarrow> string \<Rightarrow> ProcessingStoreState \<times> abrupt option" where
  "startProcessing_fulfilled s now =
     (s\<lparr>processingState := (processingState s)
          (''status'' \<mapsto> JStr ''running'',
           ''start_time'' \<mapsto> JStr now,
           ''end_time'' \<mapsto> JNull,
           ''error_message'' \<mapsto> JNull,
           ''progress'' \<mapsto> JNum 0,
           ''current_step'' \<mapsto> JStr ''Starting...'',
           ''logs'' \<mapsto> JArr []),
        isLoading := False\<rparr>, None)"

definition startProcessing_rejected ::
  "ProcessingStoreState \<Rightarrow> jsval \<Rightarrow> ProcessingStoreState \<times> abrupt option" where
  "startProcessing_rejected s err =
     (case detail_of err of
        Inl e \<Rightarrow> (s, Some (Raised e))
      | Inr detail \<Rightarrow>
          (s\<lparr>error := or_else detail (JStr ''Failed to start processing''),
             isLoading := False\<rparr>, Some (Rethrown err)))"

definition stopProcessing_begin :: "ProcessingStoreState \<Rightarrow> ProcessingStoreState" where
  "stopProcessing_begin s = s\<lparr>isLoading := True, error := JNull\<rparr>"

definition stopProcessing_fulfilled ::
  "ProcessingStoreState \<Rightarrow> ProcessingStoreState \<times> abrupt option" where
  "stopProcessing_fulfilled s = (s\<lparr>isLoading := False\<rparr>, None)"

definition stopProcessing_rejected ::
  "ProcessingStoreState \<Rightarrow> jsval \<Rightarrow> ProcessingStoreState \<times> abrupt option" where
  "stopProcessing_rejected s err =
     (case detail_of err of
        Inl e \<Rightarrow> (s, Some (Raised e))
      | Inr detail \<Rightarrow>
          (s\<lparr>error := or_else detail (JStr ''Failed to stop processing''),
             isLoading := False\<rparr>, Some (Rethrown err)))"

subsection \<open>handleWebSocketMessage\<close>

text \<open>
  Destructuring \<^verbatim>\<open>const { type, data } = message\<close> throws a TypeError when the
  message is \<^verbatim>\<open>null\<close>; the \<^verbatim>\<open>switch\<close> compares the type with \<^verbatim>\<open>===\<close>.
\<close>

definition handleWebSocketMessage ::
  "ProcessingStoreState \<Rightarrow> jsval \<Rightarrow> exn + (ProcessingStoreState \<times> effect list)" where
  "handleWebSocketMessage s msg =
     (if nullish msg then Inl TypeError
      else
        let type = get_prop msg ''type''; data = get_prop msg ''data'' in
        if type = JStr ''status_update'' \<or> type = JStr ''processing_update'' then
          (if truthy data
           then Inr (s\<lparr>processingState := processingState s ++ spread data\<rparr>, [])
           else Inr (s, []))
        else if type = JStr ''processing_complete'' then
          (if truthy data
           then Inr (s\<lparr>processingState :=
                        (processingState s ++ spread data)(''status'' \<mapsto> JStr ''completed'')\<rparr>,
                     [LoadStatistics])
           else Inr (s, []))
        else if type = JStr ''processing_error'' then
          (if truthy data
           then Inr (s\<lparr>processingState :=
                        (processingState s ++ spread (get_prop data ''state''))
                          (''status'' \<mapsto> JStr ''error'',
                           ''error_message'' \<mapsto> get_prop data ''error''),
                       error := get_prop data ''error''\<rparr>, [])
           else Inr (s, []))
        else if type = JStr ''pong'' then Inr (s, [])
        else Inr (s, [ConsoleLog ''Unknown WebSocket message type:'']))"

text \<open>
  The store after a message has been handled; a handler that throws has changed
  nothing.
\<close>

definition apply_message :: "ProcessingStoreState \<Rightarrow> jsval \<Rightarrow> ProcessingStoreState" where
  "apply_message s msg =
     (case handleWebSocketMessage s msg of Inl e \<Rightarrow> s | Inr (s', effs) \<Rightarrow> s')"

definition setWebSocketConnected ::
  "ProcessingStoreState \<Rightarrow> bool \<Rightarrow> ProcessingStoreState" where
  "setWebSocketConnected s connected = s\<lparr>isWebSocketConnected := connected\<rparr>"

definition clearError :: "ProcessingStoreState \<Rightarrow> ProcessingStoreState" where
  "clearError s = s\<lparr>error := JNull\<rparr>"

definition reset :: "ProcessingStoreState \<Rightarrow> ProcessingStoreState" where
  "reset s = s\<lparr>processingState := defaultProcessingState, stats := None,
               isLoading := False, error := JNull, isWebSocketConnected := False\<rparr>"

section \<open>The notifier (WebSocketProvider.tsx)\<close>

record notification =
  title :: string
  message :: jsval
  color :: string
  autoClose :: int

text \<open>
  What the provider's subscriber acts on: the store, the notifications shown so far and
  the effects the store's actions started.
\<close>

record dashboard =
  store :: ProcessingStoreState
  shown :: "notification list"
  effects :: "effect list"

text \<open>
  A subscriber takes the message and returns what it threw, if anything, with the
  state it left.
\<close>

type_synonym 'w callback = "jsval \<Rightarrow> 'w \<Rightarrow> exn option \<times> 'w"

definition provider_subscriber :: "dashboard callback" where
  "provider_subscriber msg a =
     (case handleWebSocketMessage (store a) msg of
        Inl e \<Rightarrow> (Some e, a)
      | Inr (s, effs) \<Rightarrow>
          let a' = a\<lparr>store := s, effects := effects a @ effs\<rparr> in
          if get_prop msg ''type'' = JStr ''processing_complete'' then
            (None, a'\<lparr>shown := shown a' @
               [\<lparr>title = ''Processing Complete'',
                 message = JStr ''Newsletter processing has finished successfully!'',
                 color = ''green'', autoClose = 5000\<rparr>]\<rparr>)
          else if get_prop msg ''type'' = JStr ''processing_error'' then
            (None, a'\<lparr>shown := shown a' @
               [\<lparr>title = ''Processing Failed'',
                 message = or_else (opt_prop (get_prop msg ''data'') ''error'')
                             (JStr ''An error occurred during processing''),
                 color = ''red'', autoClose = 10000\<rparr>]\<rparr>)
          else (None, a'))"

definition handleConnect :: "dashboard \<Rightarrow> dashboard" where
  "handleConnect a =
     a\<lparr>store := setWebSocketConnected (store a) True,
       effects := effects a @ [ConsoleLog ''WebSocket connected'']\<rparr>"

definition handleDisconnect :: "dashboard \<Rightarrow> dashboard" where
  "handleDisconnect a =
     a\<lparr>store := setWebSocketConnected (store a) False,
       effects := effects a @ [ConsoleLog ''WebSocket disconnected'']\<rparr>"

definition handleError :: "dashboard \<Rightarrow> dashboard" where
  "handleError a = a\<lparr>effects := effects a @ [ConsoleError ''WebSocket error:'']\<rparr>"

definition initial_dashboard :: dashboard where
  "initial_dashboard = \<lparr>store = initial_store, shown = [], effects = []\<rparr>"

section \<open>The connection hook (useWebSocket.ts)\<close>

datatype ready_state = CONNECTING | OPEN | CLOSING | CLOSED

datatype connection_status = Connecting | Connected | Disconnected | Error

text \<open>
  The hook's options, its React state and its refs, followed by the part of the browser
  the hook acts on: the sockets constructed so far with their \<^verbatim>\<open>readyState\<close>
  (a socket is named by its position), the timeouts and intervals that are set, the
  next timer handle (handles are positive, so a ref holding one is truthy), the frames
  sent, the console, and the state \<open>world\<close> that the owner's callbacks and the
  subscribers act on. \<open>url_ok\<close> says whether \<^verbatim>\<open>new WebSocket(fullUrl)\<close> accepts
  the address; it throws otherwise.
\<close>

record 'w hook =
  reconnectInterval :: int
  maxReconnectAttempts :: int
  onConnect :: "'w \<Rightarrow> 'w"
  onDisconnect :: "'w \<Rightarrow> 'w"
  onError :: "'w \<Rightarrow> 'w"
  isConnected :: bool
  connectionStatus :: connection_status
  lastMessage :: "jsval option"
  wsError :: "string option"
  websocketRef :: "nat option"
  reconnectTimeoutRef :: "nat option"
  reconnectAttemptsRef :: int
  pingIntervalRef :: "nat option"
  messageCallbacksRef :: "(nat \<times> 'w callback) list"
  url_ok :: bool
  sockets :: "ready_state list"
  timeouts :: "nat list"
  intervals :: "nat list"
  next_handle :: nat
  sent :: "(nat \<times> string) list"
  console :: "string list"
  world :: 'w

text \<open>\<^verbatim>\<open>readyState\<close> of the socket a ref holds.\<close>

definition readyState :: "'w hook \<Rightarrow> nat option \<Rightarrow> ready_state option" where
  "readyState h r =
     (case r of
        None \<Rightarrow> None
      | Some i \<Rightarrow> if i < length (sockets h) then Some (sockets h ! i) else None)"

text \<open>
  \<^verbatim>\<open>socket.close()\<close>: a socket that is connecting or open starts closing, and its
  close event comes later; on a socket that is closing or closed the call does nothing.
\<close>

definition close_socket :: "nat \<Rightarrow> ready_state list \<Rightarrow> ready_state list" where
  "close_socket i ss =
     (if i < length ss \<and> (ss ! i = CONNECTING \<or> ss ! i = OPEN) then ss[i := CLOSING] else ss)"

definition cleanup :: "'w hook \<Rightarrow> 'w hook" where
  "cleanup h =
     (let h1 = (case reconnectTimeoutRef h of
                  None \<Rightarrow> h
                | Some t \<Rightarrow> h\<lparr>timeouts := removeAll t (timeouts h),
                               reconnectTimeoutRef := None\<rparr>);
          h2 = (case pingIntervalRef h1 of
                  None \<Rightarrow> h1
                | Some p \<Rightarrow> h1\<lparr>intervals := removeAll p (intervals h1),
                                pingIntervalRef := None\<rparr>)
      in (case websocketRef h2 of
            None \<Rightarrow> h2
          | Some i \<Rightarrow> h2\<lparr>sockets := close_socket i (sockets h2), websocketRef := None\<rparr>))"

definition connect :: "'w hook \<Rightarrow> 'w hook" where
  "connect h =
     (if readyState h (websocketRef h) = Some OPEN then h
      else
        let h1 = (cleanup h)\<lparr>connectionStatus := Connecting, wsError := None\<rparr> in
        if url_ok h1
        then h1\<lparr>websocketRef := Some (length (sockets h1)),
                sockets := sockets h1 @ [CONNECTING]\<rparr>
        else h1\<lparr>connectionStatus := Error, wsError := Some ''Failed to connect: '',
                console := console h1 @ [''WebSocket connection error:'']\<rparr>)"

definition onopen :: "'w hook \<Rightarrow> 'w hook" where
  "onopen h =
     h\<lparr>isConnected := True, connectionStatus := Connected, wsError := None,
       reconnectAttemptsRef := 0, world := onConnect h (world h),
       pingIntervalRef := Some (next_handle h),
       intervals := intervals h @ [next_handle h],
       next_handle := Suc (next_handle h)\<rparr>"

text \<open>The interval's callback: a ping on the socket the ref holds, if it is open.\<close>

definition ping :: "'w hook \<Rightarrow> 'w hook" where
  "ping h =
     (case websocketRef h of
        None \<Rightarrow> h
      | Some i \<Rightarrow>
          if readyState h (Some i) = Some OPEN then h\<lparr>sent := sent h @ [(i, ''ping'')]\<rparr>
          else h)"

text \<open>
  \<^verbatim>\<open>messageCallbacksRef.current.forEach\<close>: the subscribers in the order they were
  added, each inside its own \<^verbatim>\<open>try\<close>. The subscribers act on \<open>world\<close>, not on
  the registry itself.
\<close>

fun forEach_callbacks :: "(nat \<times> 'w callback) list \<Rightarrow> jsval \<Rightarrow> 'w hook \<Rightarrow> 'w hook" where
  "forEach_callbacks [] msg h = h"
| "forEach_callbacks ((i, cb) # cbs) msg h =
     (case cb msg (world h) of
        (None, w) \<Rightarrow> forEach_callbacks cbs msg (h\<lparr>world := w\<rparr>)
      | (Some e, w) \<Rightarrow>
          forEach_callbacks cbs msg
            (h\<lparr>world := w, console := console h @ [''Error in message callback:'']\<rparr>))"

text \<open>
  A frame is what \<^verbatim>\<open>JSON.parse(event.data)\<close> makes of it: \<open>None\<close> when it
  throws.
\<close>

definition onmessage :: "'w hook \<Rightarrow> jsval option \<Rightarrow> 'w hook" where
  "onmessage h frame =
     (case frame of
        None \<Rightarrow> h\<lparr>console := console h @ [''Failed to parse WebSocket message:'']\<rparr>
      | Some msg \<Rightarrow> forEach_callbacks (messageCallbacksRef h) msg (h\<lparr>lastMessage := Some msg\<rparr>))"

definition onclose :: "'w hook \<Rightarrow> 'w hook" where
  "onclose h =
     (let h1 = h\<lparr>isConnected := False, connectionStatus := Disconnected,
                 world := onDisconnect h (world h)\<rparr>;
          h2 = (case pingIntervalRef h1 of
                  None \<Rightarrow> h1
                | Some p \<Rightarrow> h1\<lparr>intervals := removeAll p (intervals h1),
                                pingIntervalRef := None\<rparr>)
      in if reconnectAttemptsRef h2 < maxReconnectAttempts h2
         then h2\<lparr>reconnectAttemptsRef := reconnectAttemptsRef h2 + 1,
                 reconnectTimeoutRef := Some (next_handle h2),
                 timeouts := timeouts h2 @ [next_handle h2],
                 next_handle := Suc (next_handle h2)\<rparr>
         else h2)"

definition onerror :: "'w hook \<Rightarrow> 'w hook" where
  "onerror h =
     h\<lparr>connectionStatus := Error, wsError := Some ''WebSocket connection error'',
       world := onError h (world h)\<rparr>"

definition disconnect :: "'w hook \<Rightarrow> 'w hook" where
  "disconnect h = (cleanup h)\<lparr>isConnected := False, connectionStatus := Disconnected\<rparr>"

text \<open>
  \<^verbatim>\<open>send\<close> transmits on the socket the ref holds when it is open, and says
  whether it did; the argument is the text that goes out.
\<close>

definition send :: "'w hook \<Rightarrow> string \<Rightarrow> 'w hook \<times> bool" where
  "send h messageStr =
     (case websocketRef h of
        None \<Rightarrow> (h, False)
      | Some i \<Rightarrow>
          if readyState h (Some i) = Some OPEN
          then (h\<lparr>sent := sent h @ [(i, messageStr)]\<rparr>, True)
          else (h, False))"

text \<open>\<^verbatim>\<open>Set.add\<close> keeps one entry per callback; \<^verbatim>\<open>Set.delete\<close> removes it.\<close>

definition subscribe :: "'w hook \<Rightarrow> nat \<times> 'w callback \<Rightarrow> 'w hook" where
  "subscribe h c =
     (if fst c \<in> fst ` set (messageCallbacksRef h) then h
      else h\<lparr>messageCallbacksRef := messageCallbacksRef h @ [c]\<rparr>)"

definition unsubscribe :: "'w hook \<Rightarrow> nat \<Rightarrow> 'w hook" where
  "unsubscribe h i =
     h\<lparr>messageCallbacksRef := filter (\<lambda>c. fst c \<noteq> i) (messageCallbacksRef h)\<rparr>"

text \<open>The hook at its first render, before the effect that connects.\<close>

definition useWebSocket ::
  "int \<Rightarrow> int \<Rightarrow> ('w \<Rightarrow> 'w) \<Rightarrow> ('w \<Rightarrow> 'w) \<Rightarrow> ('w \<Rightarrow> 'w) \<Rightarrow> bool \<Rightarrow> 'w \<Rightarrow> 'w hook" where
  "useWebSocket interval attempts onc ond one ok w =
     \<lparr>reconnectInterval = interval, maxReconnectAttempts = attempts,
      onConnect = onc, onDisconnect = ond, onError = one,
      isConnected = False, connectionStatus = Disconnected, lastMessage = None,
      wsError = None, websocketRef = None, reconnectTimeoutRef = None,
      reconnectAttemptsRef = 0, pingIntervalRef = None, messageCallbacksRef = [],
      url_ok = ok, sockets = [], timeouts = [], intervals = [], next_handle = 1,
      sent = [], console = [], world = w\<rparr>"

subsection \<open>Events\<close>

text \<open>
  What can happen to a mounted hook: the owner calls \<^verbatim>\<open>connect\<close> or
  \<^verbatim>\<open>disconnect\<close>, the component unmounts, or the browser delivers an event of a
  socket or fires a timer. The handlers of every socket the hook made stay attached
  to it, and they are the same closures over the same refs. \<open>step\<close> is \<open>None\<close> when
  the browser cannot deliver the event in that state: a socket opens only while
  connecting, closes once, and a timer fires only while it is set.
\<close>

datatype event =
    Connect
  | Disconnect
  | Unmount
  | SockOpen nat
  | SockMessage nat "jsval option"
  | SockError nat
  | SockClose nat
  | TimeoutFire nat
  | IntervalFire nat

fun step :: "'w hook \<Rightarrow> event \<Rightarrow> 'w hook option" where
  "step h Connect = Some (connect h)"
| "step h Disconnect = Some (disconnect h)"
| "step h Unmount = Some (cleanup h)"
| "step h (SockOpen i) =
     (if i < length (sockets h) \<and> sockets h ! i = CONNECTING
      then Some (onopen (h\<lparr>sockets := (sockets h)[i := OPEN]\<rparr>)) else None)"
| "step h (SockMessage i frame) =
     (if i < length (sockets h) \<and> (sockets h ! i = OPEN \<or> sockets h ! i = CLOSING)
      then Some (onmessage h frame) else None)"
| "step h (SockError i) =
     (if i < length (sockets h) \<and> sockets h ! i \<noteq> CLOSED
      then Some (onerror h) else None)"
| "step h (SockClose i) =
     (if i < length (sockets h) \<and> sockets h ! i \<noteq> CLOSED
      then Some (onclose (h\<lparr>sockets := (sockets h)[i := CLOSED]\<rparr>)) else None)"
| "step h (TimeoutFire t) =
     (if t \<in> set (timeouts h)
      then Some (connect (h\<lparr>timeouts := removeAll t (timeouts h)\<rparr>)) else None)"
| "step h (IntervalFire p) =
     (if p \<in> set (intervals h) then Some (ping h) else None)"

fun run :: "'w hook \<Rightarrow> event list \<Rightarrow> 'w hook option" where
  "run h [] = Some h"
| "run h (e # es) = (case step h e of None \<Rightarrow> None | Some h' \<Rightarrow> run h' es)"

text \<open>The provider's hook, connected on mount, with the provider's subscriber.\<close>

definition provider_hook :: "dashboard hook" where
  "provider_hook =
     subscribe
       (connect (useWebSocket 3000 5 handleConnect handleDisconnect handleError True
          initial_dashboard))
       (0, provider_subscriber)"

section \<open>Runs and scenarios\<close>

text \<open>The wire events, built from their payload.\<close>

definition status_update :: "jsval \<Rightarrow> jsval" where
  "status_update d = JObj [(''type'', JStr ''status_update''), (''data'', d)]"

definition processing_complete :: "jsval \<Rightarrow> jsval" where
  "processing_complete d = JObj [(''type'', JStr ''processing_complete''), (''data'', d)]"

definition processing_error :: "jsval \<Rightarrow> jsval" where
  "processing_error d = JObj [(''type'', JStr ''processing_error''), (''data'', d)]"

text \<open>The stores a sequence of messages goes through, one per message.\<close>

fun run_messages :: "ProcessingStoreState \<Rightarrow> jsval list \<Rightarrow> ProcessingStoreState list" where
  "run_messages s [] = []"
| "run_messages s (m # ms) = apply_message s m # run_messages (apply_message s m) ms"

text \<open>The progress of a store, and the progress a payload carries, when a number.\<close>

definition progress_of :: "ProcessingStoreState \<Rightarrow> int option" where
  "progress_of s =
     (case processingState s ''progress'' of Some (JNum n) \<Rightarrow> Some n | _ \<Rightarrow> None)"

definition carried_progress :: "jsval \<Rightarrow> int option" where
  "carried_progress d =
     (if truthy d
      then (case spread d ''progress'' of Some (JNum n) \<Rightarrow> Some n | _ \<Rightarrow> None)
      else None)"

text \<open>A payload whose progress, if it has one, is a number.\<close>

definition progress_numeric :: "jsval \<Rightarrow> bool" where
  "progress_numeric d =
     (case spread d ''progress'' of None \<Rightarrow> True | Some (JNum n) \<Rightarrow> True | Some v \<Rightarrow> False)"

text \<open>Scenario B of the specification, and a run that has just been started.\<close>

definition scenario_complete :: jsval where
  "scenario_complete =
     processing_complete (JObj [(''results'', JObj [(''summaries_generated'', JNum 5)])])"

definition started_store :: ProcessingStoreState where
  "started_store = fst (startProcessing_fulfilled initial_store ''2024-01-01T00:00:00.000Z'')"

definition completed_store :: ProcessingStoreState where
  "completed_store =
     apply_message started_store (processing_complete (JObj [(''progress'', JNum 10)]))"

text \<open>
  A reconnection attempt that fails: the pending timer fires and calls
  \<^verbatim>\<open>connect\<close>, and the socket it makes reports an error and closes.
\<close>

definition failed_reconnect :: "'w hook \<Rightarrow> 'w hook option" where
  "failed_reconnect h =
     (case reconnectTimeoutRef h of
        None \<Rightarrow> None
      | Some t \<Rightarrow>
          (case step h (TimeoutFire t) of
             None \<Rightarrow> None
           | Some h1 \<Rightarrow>
               (case websocketRef h1 of
                  None \<Rightarrow> None
                | Some i \<Rightarrow> run h1 [SockError i, SockClose i])))"

fun repeat :: "nat \<Rightarrow> ('a \<Rightarrow> 'a option) \<Rightarrow> 'a \<Rightarrow> 'a option" where
  "repeat 0 f x = Some x"
| "repeat (Suc n) f x = (case f x of None \<Rightarrow> None | Some y \<Rightarrow> repeat n f y)"

text \<open>The connection of socket \<open>i\<close> drops, and the next \<open>n\<close> reconnection attempts fail.\<close>

definition drop_and_fail :: "'w hook \<Rightarrow> nat \<Rightarrow> nat \<Rightarrow> 'w hook option" where
  "drop_and_fail h i n =
     (case step h (SockClose i) of None \<Rightarrow> None | Some h0 \<Rightarrow> repeat n failed_reconnect h0)"

text \<open>
  The hook holds the one socket that is not closed, no retry is pending and the
  attempt counter is 0, as after \<^verbatim>\<open>onopen\<close> or at the first connection.
\<close>

definition live :: "'w hook \<Rightarrow> nat \<Rightarrow> bool" where
  "live h i \<longleftrightarrow>
     websocketRef h = Some i \<and> i < length (sockets h) \<and> sockets h ! i \<noteq> CLOSED \<and>
     list_all (\<lambda>j. j = i \<or> sockets h ! j = CLOSED) [0..<length (sockets h)] \<and>
     reconnectAttemptsRef h = 0 \<and> reconnectTimeoutRef h = None \<and> timeouts h = [] \<and>
     url_ok h"

text \<open>
  The subscribers that throw on a message, each acting on the state the ones before
  it left.
\<close>

fun thrown :: "(nat \<times> 'w callback) list \<Rightarrow> jsval \<Rightarrow> 'w \<Rightarrow> nat list" where
  "thrown [] msg w = []"
| "thrown ((i, cb) # cbs) msg w =
     (case cb msg w of
        (None, w') \<Rightarrow> thrown cbs msg w'
      | (Some e, w') \<Rightarrow> i # thrown cbs msg w')"

text \<open>
  Between two failed attempts: \<open>k\<close> retries have been scheduled, the last one is
  pending, and every socket made so far is closed.
\<close>

definition retrying :: "nat \<Rightarrow> 'w hook \<Rightarrow> bool" where
  "retrying k h \<longleftrightarrow>
     reconnectAttemptsRef h = int k \<and>
     (case reconnectTimeoutRef h of None \<Rightarrow> False | Some t \<Rightarrow> timeouts h = [t]) \<and>
     list_all (\<lambda>s. s = CLOSED) (sockets h) \<and> url_ok h \<and>
     connectionStatus h = Disconnected"

text \<open>Nothing is left that could connect: no timeout is set and every socket is closed.\<close>

definition exhausted :: "'w hook \<Rightarrow> bool" where
  "exhausted h \<longleftrightarrow>
     reconnectTimeoutRef h = None \<and> timeouts h = [] \<and>
     list_all (\<lambda>s. s = CLOSED) (sockets h) \<and> connectionStatus h = Disconnected"

text \<open>The provider's hook once its first socket has opened.\<close>

definition connected_hook :: "dashboard hook" where
  "connected_hook =
     (case step provider_hook (SockOpen 0) of None \<Rightarrow> provider_hook | Some h \<Rightarrow> h)"

section \<open>The job state store\<close>

lemma merge_then_set_twice:
  "((m ++ d)(k \<mapsto> v) ++ d)(k \<mapsto> v) = (m ++ d)(k \<mapsto> v)"
  by (rule ext) (simp add: map_add_def split: option.splits)

lemma typed_message_not_nullish: "get_prop msg ''type'' = JStr t \<Longrightarrow> \<not> nullish msg"
  by (cases msg) auto

text \<open>
  C1, as the specification states it, fails: the provider's subscriber shows a
  ``Processing Complete'' notification for every \<^verbatim>\<open>processing_complete\<close> message
  it receives, and keeps no record of the terminal state it has already announced. The
  same event handled twice leaves two notifications.
\<close>

theorem complete_twice_notifies_twice:
  "map title (shown (snd (provider_subscriber scenario_complete
      (snd (provider_subscriber scenario_complete initial_dashboard))))) =
   [''Processing Complete'', ''Processing Complete'']"
  by (simp add: provider_subscriber_def handleWebSocketMessage_def scenario_complete_def
      processing_complete_def initial_dashboard_def Let_def)

text \<open>
  C1, amended: handling the same \<^verbatim>\<open>processing_complete\<close> event twice leaves the
  store as handling it once does, with status \<^verbatim>\<open>completed\<close> when its payload is
  truthy and the store untouched otherwise. The subscriber decides on the type of the
  message alone and keeps no record of what it has announced: each time the event is
  handled it adds one ``Processing Complete'' notification, so the list holds one more
  after the first time and two more after the second.
\<close>

theorem complete_idempotent_state_one_notification_each:
  assumes "get_prop msg ''type'' = JStr ''processing_complete''"
  shows "store (snd (provider_subscriber msg (snd (provider_subscriber msg a)))) =
           store (snd (provider_subscriber msg a)) \<and>
         (if truthy (get_prop msg ''data'')
          then processingState (store (snd (provider_subscriber msg a))) ''status'' =
                 Some (JStr ''completed'')
          else store (snd (provider_subscriber msg a)) = store a) \<and>
         fst (provider_subscriber msg a) = None \<and>
         shown (snd (provider_subscriber msg a)) =
           shown a @
             [\<lparr>title = ''Processing Complete'',
               message = JStr ''Newsletter processing has finished successfully!'',
               color = ''green'', autoClose = 5000\<rparr>] \<and>
         shown (snd (provider_subscriber msg (snd (provider_subscriber msg a)))) =
           shown a @
             [\<lparr>title = ''Processing Complete'',
               message = JStr ''Newsletter processing has finished successfully!'',
               color = ''green'', autoClose = 5000\<rparr>,
              \<lparr>title = ''Processing Complete'',
               message = JStr ''Newsletter processing has finished successfully!'',
               color = ''green'', autoClose = 5000\<rparr>]"
proof -
  from assms have "\<not> nullish msg" by (rule typed_message_not_nullish)
  with assms show ?thesis
    by (simp add: provider_subscriber_def handleWebSocketMessage_def Let_def
        merge_then_set_twice)
qed

theorem complete_idempotent_witness:
  "get_prop scenario_complete ''type'' = JStr ''processing_complete'' \<and>
   store (snd (provider_subscriber scenario_complete
      (snd (provider_subscriber scenario_complete initial_dashboard)))) =
     store (snd (provider_subscriber scenario_complete initial_dashboard)) \<and>
   processingState (store (snd (provider_subscriber scenario_complete initial_dashboard)))
     ''status'' = Some (JStr ''completed'') \<and>
   length (shown (snd (provider_subscriber scenario_complete
      (snd (provider_subscriber scenario_complete initial_dashboard))))) = 2"
proof -
  have t: "get_prop scenario_complete ''type'' = JStr ''processing_complete''"
    by (simp add: scenario_complete_def processing_complete_def)
  have d: "truthy (get_prop scenario_complete ''data'')"
    by (simp add: scenario_complete_def processing_complete_def)
  have e: "shown initial_dashboard = []"
    by (simp add: initial_dashboard_def)
  from complete_idempotent_state_one_notification_each [OF t, of initial_dashboard] t d e
  show ?thesis by simp
qed

text \<open>
  C3, as the specification states it, fails: a \<^verbatim>\<open>status_update\<close> that arrives after
  the run has completed is merged like any other, and here moves progress from 10 to 3.
\<close>

theorem late_update_moves_progress:
  "processingState completed_store ''status'' = Some (JStr ''completed'') \<and>
   processingState completed_store ''progress'' = Some (JNum 10) \<and>
   processingState (apply_message completed_store
      (status_update (JObj [(''progress'', JNum 3)]))) ''progress'' = Some (JNum 3)"
  by (simp add: completed_store_def started_store_def startProcessing_fulfilled_def
      apply_message_def handleWebSocketMessage_def status_update_def
      processing_complete_def spread_def Let_def)

text \<open>
  C3, amended: a \<^verbatim>\<open>status_update\<close> or \<^verbatim>\<open>processing_update\<close> event is merged
  whatever the status of the store, terminal or not. With a truthy payload it overwrites
  the fields its payload carries and leaves every other field as it was; without one it
  changes nothing. No other part of the store changes.
\<close>

theorem update_merges_payload_keys_only:
  assumes "get_prop msg ''type'' = JStr ''status_update'' \<or>
           get_prop msg ''type'' = JStr ''processing_update''"
  shows "processingState (apply_message s msg) k =
           (if truthy (get_prop msg ''data'')
            then (case spread (get_prop msg ''data'') k of
                    Some v \<Rightarrow> Some v
                  | None \<Rightarrow> processingState s k)
            else processingState s k) \<and>
         apply_message s msg = s\<lparr>processingState := processingState (apply_message s msg)\<rparr>"
proof -
  from assms have "\<not> nullish msg" by (auto dest: typed_message_not_nullish)
  with assms show ?thesis
    by (auto simp: apply_message_def handleWebSocketMessage_def Let_def map_add_def
        split: option.splits)
qed

theorem update_merges_payload_keys_only_witness:
  "(get_prop (status_update (JObj [(''progress'', JNum 3)])) ''type'' = JStr ''status_update'' \<or>
    get_prop (status_update (JObj [(''progress'', JNum 3)])) ''type'' =
      JStr ''processing_update'') \<and>
   processingState (apply_message completed_store
     (status_update (JObj [(''progress'', JNum 3)]))) ''status'' =
     processingState completed_store ''status'' \<and>
   processingState (apply_message completed_store
     (status_update (JObj [(''progress'', JNum 3)]))) ''progress'' = Some (JNum 3)"
proof -
  have t: "get_prop (status_update (JObj [(''progress'', JNum 3)])) ''type'' =
             JStr ''status_update'' \<or>
           get_prop (status_update (JObj [(''progress'', JNum 3)])) ''type'' =
             JStr ''processing_update''"
    by (simp add: status_update_def)
  from update_merges_payload_keys_only [OF t, of completed_store "''status''"]
    update_merges_payload_keys_only [OF t, of completed_store "''progress''"] t
  show ?thesis by (simp add: status_update_def spread_def)
qed

text \<open>
  C4, as the specification states it, fails: within one running episode, with no start
  in between, a delta with a smaller progress moves progress backward, here from 5
  to 3.
\<close>

theorem later_delta_lowers_progress:
  "processingState started_store ''status'' = Some (JStr ''running'') \<and>
   map progress_of (run_messages started_store
      [status_update (JObj [(''progress'', JNum 5)]),
       status_update (JObj [(''progress'', JNum 3)])]) = [Some 5, Some 3] \<and>
   processingState (last (run_messages started_store
      [status_update (JObj [(''progress'', JNum 5)]),
       status_update (JObj [(''progress'', JNum 3)])])) ''status'' = Some (JStr ''running'')"
  by (simp add: progress_of_def apply_message_def handleWebSocketMessage_def
      status_update_def started_store_def startProcessing_fulfilled_def spread_def Let_def)

lemma progress_after_update:
  assumes "progress_of s = Some p" and "progress_numeric d"
  shows "progress_of (apply_message s (status_update d)) =
           (case carried_progress d of Some n \<Rightarrow> Some n | None \<Rightarrow> Some p)"
  using assms
  by (auto simp: progress_of_def progress_numeric_def carried_progress_def apply_message_def
      handleWebSocketMessage_def status_update_def Let_def map_add_def
      split: option.splits jsval.splits)

lemma progress_after_updates:
  assumes "progress_of s = Some p" and "list_all progress_numeric ds"
  shows "progress_of (last (s # run_messages s (map status_update ds))) =
           Some (last (p # List.map_filter carried_progress ds))"
  using assms
proof (induction ds arbitrary: s p)
  case Nil
  then show ?case by (simp add: List.map_filter_simps)
next
  case (Cons d ds)
  from Cons.prems have num: "progress_numeric d" and rest: "list_all progress_numeric ds"
    by simp_all
  show ?case
  proof (cases "carried_progress d")
    case None
    with Cons.prems(1) num have "progress_of (apply_message s (status_update d)) = Some p"
      by (simp add: progress_after_update)
    from Cons.IH [OF this rest] None show ?thesis
      by (simp add: List.map_filter_simps)
  next
    case (Some n)
    with Cons.prems(1) num have "progress_of (apply_message s (status_update d)) = Some n"
      by (simp add: progress_after_update)
    from Cons.IH [OF this rest] Some show ?thesis
      by (simp add: List.map_filter_simps)
  qed
qed

lemma progress_sorted:
  assumes "progress_of s = Some p"
    and "list_all progress_numeric ds"
    and "sorted (p # List.map_filter carried_progress ds)"
  shows "sorted (p # List.map_filter progress_of (run_messages s (map status_update ds))) \<and>
         length (List.map_filter progress_of (run_messages s (map status_update ds))) = length ds"
  using assms
proof (induction ds arbitrary: s p)
  case Nil
  then show ?case by (simp add: List.map_filter_simps)
next
  case (Cons d ds)
  from Cons.prems have num: "progress_numeric d" and rest: "list_all progress_numeric ds"
    by simp_all
  show ?case
  proof (cases "carried_progress d")
    case None
    with Cons.prems(1) num have p': "progress_of (apply_message s (status_update d)) = Some p"
      by (simp add: progress_after_update)
    from Cons.prems(3) None have "sorted (p # List.map_filter carried_progress ds)"
      by (simp add: List.map_filter_simps)
    from Cons.IH [OF p' rest this] p' show ?thesis
      by (simp add: List.map_filter_simps)
  next
    case (Some n)
    with Cons.prems(1) num have p': "progress_of (apply_message s (status_update d)) = Some n"
      by (simp add: progress_after_update)
    from Cons.prems(3) Some have le: "p \<le> n" and "sorted (n # List.map_filter carried_progress ds)"
      by (simp_all add: List.map_filter_simps)
    from Cons.IH [OF p' rest this(2)] p' le show ?thesis
      by (auto simp add: List.map_filter_simps)
  qed
qed

text \<open>
  C4, amended: the store takes the progress of each \<^verbatim>\<open>status_update\<close> delta as
  it comes, the last writer winning. A delta whose payload is truthy and carries a
  progress sets the progress of the store to that value, whatever the store held, so
  that a smaller value moves it backward; any other delta leaves the progress as it was.
  After a sequence of deltas whose progress values, where present, are numbers, the
  progress of the store is the last value carried, or the one it started from when
  none is carried, and it is a number after every delta. Hence progress does not
  decrease along the sequence when the values carried do not decrease and do not fall
  below the starting progress.
\<close>

theorem progress_follows_deltas:
  assumes "progress_of s = Some p"
    and "list_all progress_numeric ds"
  shows "processingState (apply_message s (status_update d)) ''progress'' =
           (if truthy d
            then (case spread d ''progress'' of
                    Some v \<Rightarrow> Some v
                  | None \<Rightarrow> processingState s ''progress'')
            else processingState s ''progress'') \<and>
         progress_of (last (s # run_messages s (map status_update ds))) =
           Some (last (p # List.map_filter carried_progress ds)) \<and>
         length (List.map_filter progress_of (run_messages s (map status_update ds))) =
           length ds \<and>
         (sorted (p # List.map_filter carried_progress ds) \<longrightarrow>
          sorted (p # List.map_filter progress_of (run_messages s (map status_update ds))))"
proof -
  have one: "processingState (apply_message s (status_update d)) ''progress'' =
           (if truthy d
            then (case spread d ''progress'' of
                    Some v \<Rightarrow> Some v
                  | None \<Rightarrow> processingState s ''progress'')
            else processingState s ''progress'')"
    by (simp add: apply_message_def handleWebSocketMessage_def status_update_def Let_def
        map_add_def split: option.splits)
  have len: "length (List.map_filter progress_of (run_messages s' (map status_update ds'))) =
      length ds'" if "progress_of s' = Some p'" "list_all progress_numeric ds'"
    for s' p' ds'
    using that
  proof (induction ds' arbitrary: s' p')
    case Nil
    then show ?case by (simp add: List.map_filter_simps)
  next
    case (Cons d' ds')
    from Cons.prems have "\<exists>q. progress_of (apply_message s' (status_update d')) = Some q"
      by (simp add: progress_after_update split: option.splits)
    then obtain q where q: "progress_of (apply_message s' (status_update d')) = Some q" ..
    from Cons.prems have "list_all progress_numeric ds'" by simp
    from Cons.IH [OF q this] q show ?case
      by (simp add: List.map_filter_simps)
  qed
  from one progress_after_updates [OF assms] len [OF assms] progress_sorted [OF assms]
  show ?thesis by blast
qed

theorem progress_follows_deltas_witness:
  "progress_of started_store = Some 0 \<and>
   list_all progress_numeric
     [JObj [(''progress'', JNum 3)], JObj [(''current_step'', JStr ''fetch'')],
      JObj [(''progress'', JNum 5)]] \<and>
   sorted (0 # List.map_filter carried_progress
     [JObj [(''progress'', JNum 3)], JObj [(''current_step'', JStr ''fetch'')],
      JObj [(''progress'', JNum 5)]]) \<and>
   sorted (0 # List.map_filter progress_of (run_messages started_store (map status_update
     [JObj [(''progress'', JNum 3)], JObj [(''current_step'', JStr ''fetch'')],
      JObj [(''progress'', JNum 5)]]))) \<and>
   progress_of (last (started_store # run_messages started_store (map status_update
     [JObj [(''progress'', JNum 3)], JObj [(''current_step'', JStr ''fetch'')],
      JObj [(''progress'', JNum 5)]]))) = Some 5 \<and>
   processingState (apply_message started_store
     (status_update (JObj [(''progress'', JNum 3)]))) ''progress'' = Some (JNum 3)"
proof -
  have a: "progress_of started_store = Some 0"
    by (simp add: progress_of_def started_store_def startProcessing_fulfilled_def)
  have b: "list_all progress_numeric
     [JObj [(''progress'', JNum 3)], JObj [(''current_step'', JStr ''fetch'')],
      JObj [(''progress'', JNum 5)]]"
    by (simp add: progress_numeric_def spread_def)
  have c: "List.map_filter carried_progress
     [JObj [(''progress'', JNum 3)], JObj [(''current_step'', JStr ''fetch'')],
      JObj [(''progress'', JNum 5)]] = [3, 5]"
    by (simp add: carried_progress_def spread_def List.map_filter_simps)
  from progress_follows_deltas [OF a b, of "JObj [(''progress'', JNum 3)]"] a b
  show ?thesis
    unfolding c by (simp add: spread_def)
qed

text \<open>
  C5, as the specification states it, fails: a \<^verbatim>\<open>processing_error\<close> event with no
  payload is skipped by the test \<^verbatim>\<open>if (data)\<close>, and the run stays
  \<^verbatim>\<open>running\<close>.
\<close>

theorem error_without_payload_ignored:
  "processingState (apply_message started_store
      (JObj [(''type'', JStr ''processing_error'')])) ''status'' = Some (JStr ''running'')"
  by (simp add: started_store_def startProcessing_fulfilled_def
      apply_message_def handleWebSocketMessage_def Let_def)

text \<open>
  C5, amended: a \<^verbatim>\<open>processing_error\<close> event with a truthy payload moves the store
  to status \<^verbatim>\<open>error\<close> and stores the payload's \<^verbatim>\<open>error\<close> property as the
  message, \<^verbatim>\<open>undefined\<close> when the payload has none; with an absent or falsy payload the
  event leaves the store as it was. A frame that does not parse is logged and reaches no
  subscriber.
\<close>

theorem error_event_needs_payload:
  assumes "get_prop msg ''type'' = JStr ''processing_error''"
  shows "(if truthy (get_prop msg ''data'')
          then processingState (apply_message s msg) ''status'' = Some (JStr ''error'') \<and>
               processingState (apply_message s msg) ''error_message'' =
                 Some (get_prop (get_prop msg ''data'') ''error'') \<and>
               error (apply_message s msg) = get_prop (get_prop msg ''data'') ''error''
          else apply_message s msg = s) \<and>
         world (onmessage h None) = world h \<and>
         console (onmessage h None) = console h @ [''Failed to parse WebSocket message:'']"
proof -
  from assms have "\<not> nullish msg" by (rule typed_message_not_nullish)
  with assms show ?thesis
    by (simp add: apply_message_def handleWebSocketMessage_def Let_def onmessage_def)
qed

theorem error_event_needs_payload_witness:
  "get_prop (processing_error (JObj [(''error'', JStr ''IMAP timeout'')])) ''type'' =
     JStr ''processing_error'' \<and>
   processingState (apply_message started_store
     (processing_error (JObj [(''error'', JStr ''IMAP timeout'')]))) ''status'' =
     Some (JStr ''error'') \<and>
   processingState (apply_message started_store
     (processing_error (JObj [(''error'', JStr ''IMAP timeout'')]))) ''error_message'' =
     Some (JStr ''IMAP timeout'')"
proof -
  have t: "get_prop (processing_error (JObj [(''error'', JStr ''IMAP timeout'')])) ''type'' =
     JStr ''processing_error''"
    by (simp add: processing_error_def)
  from error_event_needs_payload [OF t, of started_store provider_hook] t
  show ?thesis by (simp add: processing_error_def)
qed

text \<open>
  C6, as the specification states it, fails: the store never writes the current time
  into \<^verbatim>\<open>end_time\<close>. A run that is started and then completed by a payload without
  an end time has status \<^verbatim>\<open>completed\<close> and \<^verbatim>\<open>end_time\<close> still \<^verbatim>\<open>null\<close>.
\<close>

theorem completed_without_end_time:
  "processingState (apply_message started_store scenario_complete) ''status'' =
     Some (JStr ''completed'') \<and>
   processingState (apply_message started_store scenario_complete) ''end_time'' = Some JNull"
  by (simp add: started_store_def startProcessing_fulfilled_def scenario_complete_def
      processing_complete_def apply_message_def handleWebSocketMessage_def spread_def Let_def)

text \<open>
  C6, amended: on a \<^verbatim>\<open>processing_complete\<close> event with a truthy payload the store
  sets status \<^verbatim>\<open>completed\<close> and takes \<^verbatim>\<open>end_time\<close> from the payload when the
  payload carries one, leaving it as it was otherwise; a successful start sets status
  \<^verbatim>\<open>running\<close> and \<^verbatim>\<open>end_time\<close> to \<^verbatim>\<open>null\<close>.
\<close>

theorem end_time_comes_from_payload:
  assumes "get_prop msg ''type'' = JStr ''processing_complete''"
    and "truthy (get_prop msg ''data'')"
  shows "processingState (apply_message s msg) ''status'' = Some (JStr ''completed'') \<and>
         processingState (apply_message s msg) ''end_time'' =
           (case spread (get_prop msg ''data'') ''end_time'' of
              Some v \<Rightarrow> Some v
            | None \<Rightarrow> processingState s ''end_time'') \<and>
         processingState (fst (startProcessing_fulfilled s now)) ''status'' =
           Some (JStr ''running'') \<and>
         processingState (fst (startProcessing_fulfilled s now)) ''end_time'' = Some JNull"
proof -
  from assms(1) have "\<not> nullish msg" by (rule typed_message_not_nullish)
  with assms show ?thesis
    by (simp add: apply_message_def handleWebSocketMessage_def Let_def map_add_def
        startProcessing_fulfilled_def split: option.splits)
qed

theorem end_time_comes_from_payload_witness:
  "get_prop (processing_complete (JObj [(''end_time'', JStr ''2024-01-01T00:05:00.000Z'')]))
     ''type'' = JStr ''processing_complete'' \<and>
   truthy (get_prop (processing_complete
     (JObj [(''end_time'', JStr ''2024-01-01T00:05:00.000Z'')])) ''data'') \<and>
   processingState (apply_message started_store (processing_complete
     (JObj [(''end_time'', JStr ''2024-01-01T00:05:00.000Z'')]))) ''end_time'' =
     Some (JStr ''2024-01-01T00:05:00.000Z'')"
proof -
  have t: "get_prop (processing_complete
     (JObj [(''end_time'', JStr ''2024-01-01T00:05:00.000Z'')])) ''type'' =
     JStr ''processing_complete''"
    by (simp add: processing_complete_def)
  have d: "truthy (get_prop (processing_complete
     (JObj [(''end_time'', JStr ''2024-01-01T00:05:00.000Z'')])) ''data'')"
    by (simp add: processing_complete_def)
  from end_time_comes_from_payload [OF t d, of started_store] t d
  show ?thesis by (simp add: processing_complete_def spread_def)
qed

text \<open>
  C8: a snapshot load that succeeds replaces the whole processing state by the server's
  response completed with the defaults: every field is the response's when the response
  has it and the default otherwise, whatever the store held before.
\<close>

theorem snapshot_overwrites_state:
  "processingState (loadProcessingStatus_fulfilled s status) k =
     (case spread status k of Some v \<Rightarrow> Some v | None \<Rightarrow> defaultProcessingState k) \<and>
   processingState (loadProcessingStatus_fulfilled s status) =
     processingState (loadProcessingStatus_fulfilled s' status) \<and>
   isLoading (loadProcessingStatus_fulfilled s status) = False"
  by (simp add: loadProcessingStatus_fulfilled_def map_add_def split: option.splits)

text \<open>
  C10: when the start call fails, neither half of \<^verbatim>\<open>startProcessing\<close> touches the
  processing state, whatever the store holds when the failure arrives and whatever
  value the call was rejected with: of the store only \<^verbatim>\<open>error\<close> and
  \<^verbatim>\<open>isLoading\<close> change, and the action throws. The error caught is stored as
  its detail or the default text and is thrown again; only when the value caught is
  \<^verbatim>\<open>undefined\<close> or \<^verbatim>\<open>null\<close> does reading it raise a TypeError, which
  leaves the store as it was and is thrown in its place.
\<close>

theorem failed_start_keeps_processing_state:
  "processingState (startProcessing_begin s) = processingState s \<and>
   processingState (fst (startProcessing_rejected s' err)) = processingState s' \<and>
   stats (fst (startProcessing_rejected s' err)) = stats s' \<and>
   isWebSocketConnected (fst (startProcessing_rejected s' err)) = isWebSocketConnected s' \<and>
   fst (startProcessing_rejected s' err) =
     (if nullish err then s'
      else s'\<lparr>error := or_else
                  (opt_prop (opt_prop (get_prop err ''response'') ''data'') ''detail'')
                  (JStr ''Failed to start processing''),
              isLoading := False\<rparr>) \<and>
   snd (startProcessing_rejected s' err) =
     Some (if nullish err then Raised TypeError else Rethrown err) \<and>
   processingState (fst (startProcessing_rejected (startProcessing_begin s) err)) =
     processingState s \<and>
   stats (fst (startProcessing_rejected (startProcessing_begin s) err)) = stats s \<and>
   isWebSocketConnected (fst (startProcessing_rejected (startProcessing_begin s) err)) =
     isWebSocketConnected s"
  by (simp add: startProcessing_begin_def startProcessing_rejected_def detail_of_def)

section \<open>The subscriber registry\<close>

lemma forEach_callbacks_world:
  "world (forEach_callbacks cbs msg h) = foldl (\<lambda>w c. snd (snd c msg w)) (world h) cbs"
  by (induction cbs arbitrary: h) (auto split: prod.splits option.splits)

lemma forEach_callbacks_console:
  "console (forEach_callbacks cbs msg h) =
     console h @ replicate (length (thrown cbs msg (world h))) ''Error in message callback:''"
  by (induction cbs arbitrary: h) (auto split: prod.splits option.splits simp: replicate_app_Cons_same)

lemma forEach_callbacks_registry:
  "messageCallbacksRef (forEach_callbacks cbs msg h) = messageCallbacksRef h"
  by (induction cbs arbitrary: h) (auto split: prod.splits option.splits)

lemma onmessage_registry: "messageCallbacksRef (onmessage h frame) = messageCallbacksRef h"
  by (simp add: onmessage_def forEach_callbacks_registry split: option.splits)

lemma onmessage_world:
  "world (onmessage h (Some msg)) =
     foldl (\<lambda>w c. snd (snd c msg w)) (world h) (messageCallbacksRef h)"
  by (simp add: onmessage_def forEach_callbacks_world)

lemma onmessage_sequence_world:
  "world (foldl onmessage h (map Some msgs)) =
     foldl (\<lambda>w m. foldl (\<lambda>w c. snd (snd c m w)) w (messageCallbacksRef h)) (world h) msgs"
proof (induction msgs arbitrary: h)
  case Nil
  show ?case by simp
next
  case (Cons m msgs)
  show ?case
    by (simp add: Cons.IH onmessage_world onmessage_registry)
qed

text \<open>
  C9: every message that parses is handed to every registered subscriber, in the order
  the subscribers were added and the messages arrived, whether or not a subscriber
  throws: the state the subscribers act on ends as if each had run on each message in
  turn, and every throw leaves one line on the console and nothing else.
\<close>

theorem every_subscriber_gets_every_message:
  "world (onmessage h (Some msg)) =
     foldl (\<lambda>w c. snd (snd c msg w)) (world h) (messageCallbacksRef h) \<and>
   console (onmessage h (Some msg)) =
     console h @ replicate (length (thrown (messageCallbacksRef h) msg (world h)))
       ''Error in message callback:'' \<and>
   world (foldl onmessage h (map Some msgs)) =
     foldl (\<lambda>w m. foldl (\<lambda>w c. snd (snd c m w)) w (messageCallbacksRef h)) (world h) msgs"
  by (simp add: onmessage_world onmessage_sequence_world)
    (simp add: onmessage_def forEach_callbacks_console)

section \<open>Reconnection\<close>

lemma close_socket_closed:
  "list_all (\<lambda>s. s = CLOSED) ss \<Longrightarrow> close_socket i ss = ss"
  by (auto simp: close_socket_def list_all_length)

lemma cleanup_fields [simp]:
  "maxReconnectAttempts (cleanup h) = maxReconnectAttempts h"
  "url_ok (cleanup h) = url_ok h"
  "reconnectAttemptsRef (cleanup h) = reconnectAttemptsRef h"
  "next_handle (cleanup h) = next_handle h"
  "connectionStatus (cleanup h) = connectionStatus h"
  "reconnectTimeoutRef (cleanup h) = None"
  "pingIntervalRef (cleanup h) = None"
  "websocketRef (cleanup h) = None"
  "length (sockets (cleanup h)) = length (sockets h)"
  by (simp_all add: cleanup_def Let_def close_socket_def split: option.splits)

lemma cleanup_timeouts:
  "timeouts (cleanup h) =
     (case reconnectTimeoutRef h of None \<Rightarrow> timeouts h | Some t \<Rightarrow> removeAll t (timeouts h))"
  by (simp add: cleanup_def Let_def split: option.splits)

lemma cleanup_sockets_closed:
  "list_all (\<lambda>s. s = CLOSED) (sockets h) \<Longrightarrow> sockets (cleanup h) = sockets h"
  by (simp add: cleanup_def Let_def close_socket_closed split: option.splits)

lemma onclose_fields [simp]:
  "maxReconnectAttempts (onclose h) = maxReconnectAttempts h"
  "url_ok (onclose h) = url_ok h"
  "sockets (onclose h) = sockets h"
  "connectionStatus (onclose h) = Disconnected"
  by (simp_all add: onclose_def Let_def split: option.splits)

lemma onclose_retry:
  "reconnectAttemptsRef h < maxReconnectAttempts h \<Longrightarrow>
   reconnectAttemptsRef (onclose h) = reconnectAttemptsRef h + 1 \<and>
   reconnectTimeoutRef (onclose h) = Some (next_handle h) \<and>
   timeouts (onclose h) = timeouts h @ [next_handle h]"
  by (simp add: onclose_def Let_def split: option.splits)

lemma onclose_stop:
  "\<not> reconnectAttemptsRef h < maxReconnectAttempts h \<Longrightarrow>
   reconnectAttemptsRef (onclose h) = reconnectAttemptsRef h \<and>
   reconnectTimeoutRef (onclose h) = reconnectTimeoutRef h \<and>
   timeouts (onclose h) = timeouts h"
  by (simp add: onclose_def Let_def split: option.splits)

lemma connect_closed:
  assumes "list_all (\<lambda>s. s = CLOSED) (sockets h)" and "url_ok h"
  shows "sockets (connect h) = sockets h @ [CONNECTING]"
    and "websocketRef (connect h) = Some (length (sockets h))"
    and "reconnectTimeoutRef (connect h) = None"
    and "timeouts (connect h) =
       (case reconnectTimeoutRef h of None \<Rightarrow> timeouts h | Some t \<Rightarrow> removeAll t (timeouts h))"
    and "reconnectAttemptsRef (connect h) = reconnectAttemptsRef h"
    and "maxReconnectAttempts (connect h) = maxReconnectAttempts h"
    and "url_ok (connect h) = url_ok h"
proof -
  from assms(1) have no: "readyState h (websocketRef h) \<noteq> Some OPEN"
    by (auto simp: readyState_def list_all_length split: option.splits)
  with assms show "sockets (connect h) = sockets h @ [CONNECTING]"
    and "websocketRef (connect h) = Some (length (sockets h))"
    and "reconnectTimeoutRef (connect h) = None"
    and "timeouts (connect h) =
       (case reconnectTimeoutRef h of None \<Rightarrow> timeouts h | Some t \<Rightarrow> removeAll t (timeouts h))"
    and "reconnectAttemptsRef (connect h) = reconnectAttemptsRef h"
    and "maxReconnectAttempts (connect h) = maxReconnectAttempts h"
    and "url_ok (connect h) = url_ok h"
    by (simp_all add: connect_def Let_def cleanup_sockets_closed cleanup_timeouts)
qed


lemma onerror_fields [simp]:
  "maxReconnectAttempts (onerror h) = maxReconnectAttempts h"
  "url_ok (onerror h) = url_ok h"
  "sockets (onerror h) = sockets h"
  "timeouts (onerror h) = timeouts h"
  "reconnectTimeoutRef (onerror h) = reconnectTimeoutRef h"
  "reconnectAttemptsRef (onerror h) = reconnectAttemptsRef h"
  "next_handle (onerror h) = next_handle h"
  by (simp_all add: onerror_def)

lemma failed_reconnect_unfold:
  assumes "retrying k h"
  shows "\<exists>t. reconnectTimeoutRef h = Some t \<and>
           failed_reconnect h =
             Some (onclose ((onerror (connect (h\<lparr>timeouts := removeAll t (timeouts h)\<rparr>)))
                     \<lparr>sockets := sockets h @ [CLOSED]\<rparr>))"
proof -
  from assms obtain t where t: "reconnectTimeoutRef h = Some t" "timeouts h = [t]"
    and cl: "list_all (\<lambda>s. s = CLOSED) (sockets h)" and ok: "url_ok h"
    by (auto simp: retrying_def split: option.splits)
  let ?ht = "h\<lparr>timeouts := removeAll t (timeouts h)\<rparr>"
  have cl': "list_all (\<lambda>s. s = CLOSED) (sockets ?ht)" and ok': "url_ok ?ht"
    using cl ok by simp_all
  note c = connect_closed [OF cl' ok']
  have s1: "step h (TimeoutFire t) = Some (connect ?ht)"
    using t by simp
  have s2: "step (connect ?ht) (SockError (length (sockets h))) = Some (onerror (connect ?ht))"
    using c(1) by simp
  have s3: "step (onerror (connect ?ht)) (SockClose (length (sockets h))) =
      Some (onclose ((onerror (connect ?ht))\<lparr>sockets := sockets h @ [CLOSED]\<rparr>))"
    using c(1) by simp
  show ?thesis
    using t(1) s1 s2 s3 c(2) by (simp add: failed_reconnect_def)
qed

lemma failed_reconnect_retrying:
  assumes "retrying k h" and "int k < maxReconnectAttempts h"
  shows "\<exists>h'. failed_reconnect h = Some h' \<and> retrying (Suc k) h' \<and>
           maxReconnectAttempts h' = maxReconnectAttempts h \<and>
           length (sockets h') = Suc (length (sockets h))"
proof -
  from failed_reconnect_unfold [OF assms(1)] obtain t where
    t: "reconnectTimeoutRef h = Some t" and
    f: "failed_reconnect h =
          Some (onclose ((onerror (connect (h\<lparr>timeouts := removeAll t (timeouts h)\<rparr>)))
                  \<lparr>sockets := sockets h @ [CLOSED]\<rparr>))"
    by blast
  from assms(1) t have ts: "timeouts h = [t]"
    and cl: "list_all (\<lambda>s. s = CLOSED) (sockets h)" and ok: "url_ok h"
    and at: "reconnectAttemptsRef h = int k"
    by (auto simp: retrying_def)
  let ?ht = "h\<lparr>timeouts := removeAll t (timeouts h)\<rparr>"
  let ?g = "(onerror (connect ?ht))\<lparr>sockets := sockets h @ [CLOSED]\<rparr>"
  have cl': "list_all (\<lambda>s. s = CLOSED) (sockets ?ht)" and ok': "url_ok ?ht"
    using cl ok by simp_all
  note c = connect_closed [OF cl' ok']
  have g: "reconnectAttemptsRef ?g = int k" "maxReconnectAttempts ?g = maxReconnectAttempts h"
    "timeouts ?g = []" "url_ok ?g" "sockets ?g = sockets h @ [CLOSED]"
    using c at t ts ok by simp_all
  from g assms(2) have lt: "reconnectAttemptsRef ?g < maxReconnectAttempts ?g" by simp
  from onclose_retry [OF lt] g cl have "retrying (Suc k) (onclose ?g)"
    by (simp add: retrying_def)
  with f g show ?thesis by simp
qed

lemma failed_reconnect_last:
  assumes "retrying k h" and "\<not> int k < maxReconnectAttempts h"
  shows "\<exists>h'. failed_reconnect h = Some h' \<and> exhausted h' \<and>
           length (sockets h') = Suc (length (sockets h))"
proof -
  from failed_reconnect_unfold [OF assms(1)] obtain t where
    t: "reconnectTimeoutRef h = Some t" and
    f: "failed_reconnect h =
          Some (onclose ((onerror (connect (h\<lparr>timeouts := removeAll t (timeouts h)\<rparr>)))
                  \<lparr>sockets := sockets h @ [CLOSED]\<rparr>))"
    by blast
  from assms(1) t have ts: "timeouts h = [t]"
    and cl: "list_all (\<lambda>s. s = CLOSED) (sockets h)" and ok: "url_ok h"
    and at: "reconnectAttemptsRef h = int k"
    by (auto simp: retrying_def)
  let ?ht = "h\<lparr>timeouts := removeAll t (timeouts h)\<rparr>"
  let ?g = "(onerror (connect ?ht))\<lparr>sockets := sockets h @ [CLOSED]\<rparr>"
  have cl': "list_all (\<lambda>s. s = CLOSED) (sockets ?ht)" and ok': "url_ok ?ht"
    using cl ok by simp_all
  note c = connect_closed [OF cl' ok']
  have g: "reconnectAttemptsRef ?g = int k" "maxReconnectAttempts ?g = maxReconnectAttempts h"
    "timeouts ?g = []" "reconnectTimeoutRef ?g = None" "sockets ?g = sockets h @ [CLOSED]"
    using c at t ts ok by simp_all
  from g assms(2) have ge: "\<not> reconnectAttemptsRef ?g < maxReconnectAttempts ?g" by simp
  from onclose_stop [OF ge] g cl have "exhausted (onclose ?g)"
    by (simp add: exhausted_def)
  with f g show ?thesis by simp
qed

lemma repeat_retrying:
  assumes "retrying k h" and "int (k + j) \<le> maxReconnectAttempts h"
  shows "\<exists>h'. repeat j failed_reconnect h = Some h' \<and> retrying (k + j) h' \<and>
           maxReconnectAttempts h' = maxReconnectAttempts h \<and>
           length (sockets h') = length (sockets h) + j"
  using assms
proof (induction j arbitrary: k h)
  case 0
  then show ?case by simp
next
  case (Suc j)
  from Suc.prems have "int k < maxReconnectAttempts h" by simp
  from failed_reconnect_retrying [OF Suc.prems(1) this] obtain h1 where
    h1: "failed_reconnect h = Some h1" "retrying (Suc k) h1"
      "maxReconnectAttempts h1 = maxReconnectAttempts h"
      "length (sockets h1) = Suc (length (sockets h))"
    by blast
  from Suc.prems(2) h1(3) have "int (Suc k + j) \<le> maxReconnectAttempts h1" by simp
  from Suc.IH [OF h1(2) this] h1 show ?case by auto
qed

lemma repeat_snoc:
  "repeat (Suc n) f x = (case repeat n f x of None \<Rightarrow> None | Some y \<Rightarrow> f y)"
proof (induction n arbitrary: x)
  case 0
  show ?case by (simp split: option.splits)
next
  case (Suc n)
  show ?case
  proof (cases "f x")
    case None
    then show ?thesis by simp
  next
    case (Some y)
    then have "repeat (Suc (Suc n)) f x = repeat (Suc n) f y" by simp
    also have "\<dots> = (case repeat n f y of None \<Rightarrow> None | Some z \<Rightarrow> f z)"
      by (rule Suc.IH)
    also have "\<dots> = (case repeat (Suc n) f x of None \<Rightarrow> None | Some z \<Rightarrow> f z)"
      using Some by simp
    finally show ?thesis .
  qed
qed

lemma exhausted_step:
  assumes "exhausted h" and "e \<noteq> Connect" and "step h e = Some h'"
  shows "exhausted h' \<and> sockets h' = sockets h"
proof (cases e)
  case Connect
  with assms(2) show ?thesis by simp
next
  case Disconnect
  with assms show ?thesis
    by (auto simp: exhausted_def disconnect_def cleanup_sockets_closed cleanup_timeouts)
next
  case Unmount
  with assms show ?thesis
    by (auto simp: exhausted_def cleanup_sockets_closed cleanup_timeouts)
next
  case (SockOpen i)
  with assms show ?thesis
    by (auto simp: exhausted_def list_all_length split: if_splits)
next
  case (SockMessage i frame)
  with assms show ?thesis
    by (auto simp: exhausted_def list_all_length split: if_splits)
next
  case (SockError i)
  with assms show ?thesis
    by (auto simp: exhausted_def list_all_length split: if_splits)
next
  case (SockClose i)
  with assms show ?thesis
    by (auto simp: exhausted_def list_all_length split: if_splits)
next
  case (TimeoutFire t)
  with assms show ?thesis
    by (auto simp: exhausted_def split: if_splits)
next
  case (IntervalFire p)
  with assms have "readyState h (websocketRef h) \<noteq> Some OPEN"
    by (auto simp: exhausted_def readyState_def list_all_length split: option.splits)
  with IntervalFire assms show ?thesis
    by (auto simp: ping_def readyState_def split: if_splits option.splits)
qed

lemma exhausted_run:
  assumes "exhausted h" and "Connect \<notin> set evs" and "run h evs = Some h'"
  shows "exhausted h' \<and> sockets h' = sockets h"
  using assms
proof (induction evs arbitrary: h)
  case Nil
  then show ?case by simp
next
  case (Cons e evs)
  from Cons.prems(3) obtain h1 where h1: "step h e = Some h1" "run h1 evs = Some h'"
    by (auto split: option.splits)
  from Cons.prems(2) have ne: "e \<noteq> Connect" "Connect \<notin> set evs" by auto
  from exhausted_step [OF Cons.prems(1) ne(1) h1(1)]
  have "exhausted h1" "sockets h1 = sockets h" by simp_all
  with Cons.IH [OF this(1) ne(2) h1(2)] show ?case by simp
qed

lemma live_drop:
  assumes "live h i"
  shows "step h (SockClose i) = Some (onclose (h\<lparr>sockets := (sockets h)[i := CLOSED]\<rparr>))"
    and "list_all (\<lambda>s. s = CLOSED) ((sockets h)[i := CLOSED])"
proof -
  from assms show "step h (SockClose i) =
      Some (onclose (h\<lparr>sockets := (sockets h)[i := CLOSED]\<rparr>))"
    by (simp add: live_def)
  from assms have "\<forall>j < length (sockets h). j = i \<or> sockets h ! j = CLOSED"
    by (simp add: live_def list_all_iff)
  moreover from assms have "i < length (sockets h)"
    by (simp add: live_def)
  ultimately show "list_all (\<lambda>s. s = CLOSED) ((sockets h)[i := CLOSED])"
    by (auto simp: list_all_length nth_list_update)
qed

text \<open>
  C7: the attempt counter starts at 0 and goes up by one with every retry that is
  scheduled. When a connection drops and the reconnection attempts that follow all
  fail, a further attempt is pending after each of the first
  \<^verbatim>\<open>maxReconnectAttempts\<close> - 1 failures; after exactly
  \<^verbatim>\<open>maxReconnectAttempts\<close> failures no timeout is set, the status is
  \<^verbatim>\<open>disconnected\<close>, and whatever the browser or the owner does next short of
  calling \<^verbatim>\<open>connect\<close>, the status stays \<^verbatim>\<open>disconnected\<close> and no socket is
  made.
\<close>

theorem reconnection_stops_at_maximum:
  assumes "live h i"
  shows "(\<exists>h'. drop_and_fail h i (nat (maxReconnectAttempts h)) = Some h' \<and>
            connectionStatus h' = Disconnected \<and>
            reconnectTimeoutRef h' = None \<and> timeouts h' = [] \<and>
            length (sockets h') = length (sockets h) + nat (maxReconnectAttempts h) \<and>
            (\<forall>evs h''. Connect \<notin> set evs \<longrightarrow> run h' evs = Some h'' \<longrightarrow>
               connectionStatus h'' = Disconnected \<and> sockets h'' = sockets h')) \<and>
         (\<forall>k < nat (maxReconnectAttempts h).
            \<exists>hk. drop_and_fail h i k = Some hk \<and> reconnectTimeoutRef hk \<noteq> None \<and>
              reconnectAttemptsRef hk = int k + 1) \<and>
         reconnectAttemptsRef (useWebSocket interval attempts onc ond one ok w) = 0"
proof -
  have start: "reconnectAttemptsRef (useWebSocket interval attempts onc ond one ok w) = 0"
    by (simp add: useWebSocket_def)
  let ?M = "maxReconnectAttempts h"
  let ?h0 = "onclose (h\<lparr>sockets := (sockets h)[i := CLOSED]\<rparr>)"
  let ?g = "h\<lparr>sockets := (sockets h)[i := CLOSED]\<rparr>"
  note d = live_drop [OF assms]
  from assms have g: "reconnectAttemptsRef ?g = 0" "maxReconnectAttempts ?g = ?M"
    "timeouts ?g = []" "reconnectTimeoutRef ?g = None" "url_ok ?g"
    by (simp_all add: live_def)
  have daf: "drop_and_fail h i n = repeat n failed_reconnect ?h0" for n
    using d(1) by (simp add: drop_and_fail_def)
  have stay: "\<forall>evs h''. Connect \<notin> set evs \<longrightarrow> run h' evs = Some h'' \<longrightarrow>
               connectionStatus h'' = Disconnected \<and> sockets h'' = sockets h'"
    if "exhausted h'" for h' :: "'a hook"
    using exhausted_run [OF that] by (auto simp: exhausted_def)
  show ?thesis
  proof (cases "0 < ?M")
    case False
    with g have "\<not> reconnectAttemptsRef ?g < maxReconnectAttempts ?g" by simp
    from onclose_stop [OF this] g d(2) have ex: "exhausted ?h0"
      by (simp add: exhausted_def)
    from False have n0: "nat ?M = 0" by simp
    from ex stay [OF ex] start show ?thesis
      unfolding daf n0 by (simp add: exhausted_def)
  next
    case True
    with g have "reconnectAttemptsRef ?g < maxReconnectAttempts ?g" by simp
    from onclose_retry [OF this] g d(2) have r1: "retrying 1 ?h0"
      by (simp add: retrying_def)
    have M0: "maxReconnectAttempts ?h0 = ?M" and l0: "length (sockets ?h0) = length (sockets h)"
      by simp_all
    have pending: "\<exists>hk. drop_and_fail h i k = Some hk \<and> retrying (1 + k) hk \<and>
        maxReconnectAttempts hk = ?M \<and> length (sockets hk) = length (sockets h) + k"
      if "k < nat ?M" for k
    proof -
      from that have "int (1 + k) \<le> maxReconnectAttempts ?h0" by simp
      from repeat_retrying [OF r1 this] show ?thesis
        unfolding daf by (simp add: l0)
    qed
    obtain m where m: "nat ?M = Suc m" using True by (cases "nat ?M") auto
    then have "m < nat ?M" by simp
    from pending [OF this] obtain hm where
      hm: "drop_and_fail h i m = Some hm" "retrying (1 + m) hm"
        "maxReconnectAttempts hm = ?M" "length (sockets hm) = length (sockets h) + m"
      by blast
    from m True have "\<not> int (1 + m) < maxReconnectAttempts hm"
      using hm(3) by simp
    from failed_reconnect_last [OF hm(2) this] obtain h' where
      h': "failed_reconnect hm = Some h'" "exhausted h'"
        "length (sockets h') = Suc (length (sockets hm))"
      by blast
    have last: "drop_and_fail h i (nat ?M) = Some h'"
      using hm(1) h'(1) unfolding daf m repeat_snoc by simp
    have first: "\<exists>h'. drop_and_fail h i (nat ?M) = Some h' \<and>
            connectionStatus h' = Disconnected \<and>
            reconnectTimeoutRef h' = None \<and> timeouts h' = [] \<and>
            length (sockets h') = length (sockets h) + nat ?M \<and>
            (\<forall>evs h''. Connect \<notin> set evs \<longrightarrow> run h' evs = Some h'' \<longrightarrow>
               connectionStatus h'' = Disconnected \<and> sockets h'' = sockets h')"
      using last h'(2,3) hm(4) m stay [OF h'(2)] by (simp add: exhausted_def)
    have second: "\<forall>k < nat ?M.
            \<exists>hk. drop_and_fail h i k = Some hk \<and> reconnectTimeoutRef hk \<noteq> None \<and>
              reconnectAttemptsRef hk = int k + 1"
    proof (intro allI impI)
      fix k assume "k < nat ?M"
      from pending [OF this] obtain hk where
        "drop_and_fail h i k = Some hk" "retrying (1 + k) hk" by blast
      then show "\<exists>hk. drop_and_fail h i k = Some hk \<and> reconnectTimeoutRef hk \<noteq> None \<and>
              reconnectAttemptsRef hk = int k + 1"
        by (auto simp: retrying_def split: option.splits)
    qed
    from first second start show ?thesis by blast
  qed
qed

theorem reconnection_stops_at_maximum_witness:
  "live connected_hook 0 \<and>
   map_option connectionStatus (drop_and_fail connected_hook 0 5) = Some Disconnected \<and>
   map_option timeouts (drop_and_fail connected_hook 0 5) = Some [] \<and>
   map_option (length \<circ> sockets) (drop_and_fail connected_hook 0 5) = Some 6 \<and>
   map_option connectionStatus
     (case drop_and_fail connected_hook 0 5 of
        None \<Rightarrow> None
      | Some h' \<Rightarrow> run h' [Disconnect, Unmount]) = Some Disconnected \<and>
   map_option reconnectAttemptsRef (drop_and_fail connected_hook 0 4) = Some 5 \<and>
   reconnectAttemptsRef
     (useWebSocket 3000 5 handleConnect handleDisconnect handleError True initial_dashboard) = 0"
proof -
  have l: "live connected_hook 0"
    by (simp add: connected_hook_def provider_hook_def subscribe_def connect_def cleanup_def
        useWebSocket_def onopen_def live_def readyState_def Let_def)
  have m: "nat (maxReconnectAttempts connected_hook) = 5"
    "length (sockets connected_hook) = 1"
    by (simp_all add: connected_hook_def provider_hook_def subscribe_def connect_def
        cleanup_def useWebSocket_def onopen_def readyState_def Let_def)
  note bound = reconnection_stops_at_maximum [OF l,
      of 3000 5 handleConnect handleDisconnect handleError True initial_dashboard, unfolded m]
  from bound obtain h' where
    h': "drop_and_fail connected_hook 0 5 = Some h'" "connectionStatus h' = Disconnected"
      "timeouts h' = []" "length (sockets h') = 6"
    and all: "\<forall>evs h''. Connect \<notin> set evs \<longrightarrow> run h' evs = Some h'' \<longrightarrow>
      connectionStatus h'' = Disconnected \<and> sockets h'' = sockets h'"
    by auto
  from all have stay: "connectionStatus h'' = Disconnected"
    if "Connect \<notin> set evs" "run h' evs = Some h''" for evs h''
    using that by blast
  from bound have pending: "\<exists>hk. drop_and_fail connected_hook 0 k = Some hk \<and>
      reconnectAttemptsRef hk = int k + 1" if "k < 5" for k
    using that by blast
  have "map_option connectionStatus (run h' [Disconnect, Unmount]) = Some Disconnected"
  proof -
    have r: "run h' [Disconnect, Unmount] = Some (cleanup (disconnect h'))" by simp
    have "Connect \<notin> set [Disconnect, Unmount]" by simp
    from stay [OF this r] r show ?thesis by simp
  qed
  moreover from pending [of 4] have
    "map_option reconnectAttemptsRef (drop_and_fail connected_hook 0 4) = Some 5"
    by auto
  moreover from bound have "reconnectAttemptsRef
     (useWebSocket 3000 5 handleConnect handleDisconnect handleError True initial_dashboard) = 0"
    by blast
  ultimately show ?thesis using l h' by simp
qed

text \<open>
  Where \<^verbatim>\<open>disconnect\<close> does stop the retries: when a retry is pending and every
  socket has already closed, it clears the timeout and nothing is left to fire.
\<close>

lemma disconnect_cancels_pending_retry:
  assumes "retrying k h"
  shows "exhausted (disconnect h)"
  using assms
  by (auto simp: retrying_def exhausted_def disconnect_def cleanup_timeouts
      cleanup_sockets_closed split: option.splits)

text \<open>
  C2 does not hold of the code. \<^verbatim>\<open>disconnect\<close> clears the pending timeout and
  closes the socket, but the socket keeps its \<^verbatim>\<open>onclose\<close> handler: when the close
  of a live connection is reported, the handler finds the attempt counter at 0,
  schedules a retry, and the retry opens a second socket although nobody called
  \<^verbatim>\<open>connect\<close>.
\<close>

theorem disconnect_then_close_reconnects:
  "map_option timeouts (run provider_hook [SockOpen 0, Disconnect]) = Some [] \<and>
   map_option connectionStatus (run provider_hook [SockOpen 0, Disconnect]) = Some Disconnected \<and>
   map_option timeouts (run provider_hook [SockOpen 0, Disconnect, SockClose 0]) = Some [2] \<and>
   map_option sockets (run provider_hook [SockOpen 0, Disconnect, SockClose 0, TimeoutFire 2]) =
     Some [CLOSED, CONNECTING]"
  by (simp add: provider_hook_def subscribe_def connect_def cleanup_def disconnect_def
      useWebSocket_def onopen_def onclose_def readyState_def close_socket_def Let_def)

end
